theory Spec2Isabelle
  imports Main "HOL-Library.Word"
begin

section \<open>Python strings\<close>

text \<open>
  A Python \<open>str\<close> is a sequence of Unicode code points, so it is modelled as a list of
  natural numbers (one per code point), not as a list of bytes. \<open>str\<close> turns an ASCII
  literal into such a sequence.
\<close>

type_synonym pystr = "nat list"

definition str :: "string \<Rightarrow> pystr" where
  "str s = map of_char s"

text \<open>The characters the program and the JSON library name.\<close>

abbreviation (input) NL :: nat where
  "NL \<equiv> 10"

abbreviation (input) QUOTE :: nat where
  "QUOTE \<equiv> 34"

abbreviation (input) BACKSLASH :: nat where
  "BACKSLASH \<equiv> 92"

abbreviation (input) SPACE :: nat where
  "SPACE \<equiv> 32"

text \<open>
  \<open>str.isspace\<close> on one code point: the characters CPython treats as whitespace
  (bidirectional type WS, B or S, or category Zs).
\<close>

definition py_isspace :: "nat \<Rightarrow> bool" where
  "py_isspace c \<longleftrightarrow>
     (9 \<le> c \<and> c \<le> 13) \<or> (28 \<le> c \<and> c \<le> 32) \<or> c = 133 \<or> c = 160 \<or> c = 5760 \<or>
     (8192 \<le> c \<and> c \<le> 8202) \<or> c = 8232 \<or> c = 8233 \<or> c = 8239 \<or> c = 8287 \<or> c = 12288"

text \<open>\<open>s.strip()\<close> with no argument removes leading and trailing whitespace.\<close>

definition strip :: "pystr \<Rightarrow> pystr" where
  "strip s = rev (dropWhile py_isspace (rev (dropWhile py_isspace s)))"

text \<open>Truthiness of a \<open>str\<close>: the empty string is false, every other one is true.\<close>

definition truthy :: "pystr \<Rightarrow> bool" where
  "truthy s \<longleftrightarrow> s \<noteq> []"

text \<open>\<open>sep.join(xs)\<close>: the items in order, with \<open>sep\<close> between neighbours only.\<close>

fun py_join :: "pystr \<Rightarrow> pystr list \<Rightarrow> pystr" where
  "py_join sep [] = []"
| "py_join sep [x] = x"
| "py_join sep (x # y # ys) = x @ sep @ py_join sep (y # ys)"

section \<open>The document and the errors\<close>

text \<open>
  The object \<open>Document(path)\<close> returns is used through \<open>document.paragraphs\<close> and
  \<open>paragraph.text\<close> only.
\<close>

record Paragraph =
  paragraph_text :: pystr

record document =
  paragraphs :: "Paragraph list"

datatype error =
    InputNotFound
  | InvalidDocumentFormat
  | OutputWriteError
  | UnicodeEncodeError

type_synonym path = pystr

type_synonym byte = "8 word"

type_synonym files = "path \<rightharpoonup> byte list"

text \<open>
  Modelled from the spec: the document-parsing capability (the \<open>docx\<close> package, which is
  not part of the repository). Its contract is "given a valid document path, return the
  ordered paragraph texts, or fail with a descriptive error for invalid, corrupt or missing
  input". A missing file fails with \<open>InputNotFound\<close>; how the bytes of an existing file
  are parsed is the parameter \<open>parse\<close>. Opening a document reads the file system only.
\<close>

definition Document :: "(byte list \<Rightarrow> document option) \<Rightarrow> files \<Rightarrow> path \<Rightarrow> error + document" where
  "Document parse fs p =
     (case fs p of
        None \<Rightarrow> Inl InputNotFound
      | Some content \<Rightarrow>
          (case parse content of
             None \<Rightarrow> Inl InvalidDocumentFormat
           | Some d \<Rightarrow> Inr d))"

section \<open>Text extraction and payload construction\<close>

text \<open>
  \<open>extract_text\<close> is the body of \<open>read_docx_text\<close> after the document is open: the
  list comprehension over \<open>document.paragraphs\<close>, the filter \<open>if line.strip()\<close> and
  the join with a newline.
\<close>

definition extract_text :: "document \<Rightarrow> pystr" where
  "extract_text d =
     (let ps = map paragraph_text (paragraphs d)
      in py_join [NL] (filter (\<lambda>line. truthy (strip line)) ps))"

definition read_docx_text :: "(byte list \<Rightarrow> document option) \<Rightarrow> files \<Rightarrow> path \<Rightarrow> error + pystr" where
  "read_docx_text parse fs p =
     (case Document parse fs p of
        Inl e \<Rightarrow> Inl e
      | Inr d \<Rightarrow> Inr (extract_text d))"

subsection \<open>The constant prompt\<close>

text \<open>
  \<open>SYSTEM_PROMPT\<close> is the triple-quoted literal of the source, line by line; every line
  of it, the last one too, ends with a newline. Characters beyond ASCII are given by their
  code points.
\<close>

text \<open>Lines 13 to 50 of the source file.\<close>

definition SYSTEM_PROMPT_lines_1 :: "pystr list" where
  "SYSTEM_PROMPT_lines_1 =
    [str ''SYSTEM PROMPT '' @ [8212] @ str '' AUDITOR PH INMOBILIARIO (DECIMALES CONTROLADOS + VALIDACI'' @ [211] @ str ''N)'',
     [],
     str ''You are a real-estate technical audit engine specialized in Argentine Property Horizontal deeds and Special Horizontal Developments.'',
     [],
     str ''The user works on Windows with regional settings:'',
     [],
     [8226] @ str '' Human decimal separator: ,'',
     [8226] @ str '' Thousands separator: .'',
     [8226] @ str '' List separator: ;'',
     [],
     [9888, 65039] @ str '' ALL technical outputs MUST be normalized to international numeric format:'',
     [],
     str ''Decimal separator '' @ [8594] @ str '' .'',
     str ''NO thousands separators EVER.'',
     [],
     [127919] @ str '' CORE MISSION'',
     [],
     str ''Receive deed text segments and extract ONLY the units belonging to the building or complex explicitly mentioned.'',
     [],
     str ''NEVER mix different buildings even if they appear in the same text.'',
     [],
     [128230] @ str '' DATA FIELDS PER UNIT'',
     str ''building_name'',
     [],
     str ''Exact building or complex name'',
     [],
     str ''unit '' @ [8212] @ str '' strict normalization'',
     [],
     str ''Planta Baja letra A '' @ [8594] @ str '' PB A'',
     str ''Primer piso letra C '' @ [8594] @ str '' 1 C'',
     str ''Segundo piso letra D '' @ [8594] @ str '' 2 D'',
     str ''Tercer piso letra B '' @ [8594] @ str '' 3 B'',
     str ''Subsuelo cochera N '' @ [8594] @ str '' COCHERA N'',
     str ''Baulera n'' @ [250] @ str ''mero N '' @ [8594] @ str '' BAULERA N'',
     str ''Special PH lots '' @ [8594] @ str '' Z-468 etc exactly as deed'',
     [],
     str ''type (only one)'',
     []]"

text \<open>Lines 51 to 88 of the source file.\<close>

definition SYSTEM_PROMPT_lines_2 :: "pystr list" where
  "SYSTEM_PROMPT_lines_2 =
    [str ''Vivienda | Cochera | Baulera | Local | Mixto'',
     [],
     [128208] @ str '' SURFACE RULES (MANDATORY)'',
     str ''propia_total ='',
     [],
     [10004] @ str '' own covered surface'',
     [10004] @ str '' + ALL exclusive-use surfaces (balcony, patio, terrace, semicubierta exclusiva)'',
     [],
     str ''comunes_total ='',
     [],
     [10004] @ str '' common covered'',
     [10004] @ str '' + common semicubierta'',
     [10004] @ str '' + common uncovered'',
     [],
     [10060] @ str '' NEVER place exclusive-use surfaces into comunes'',
     [],
     str ''If no common surfaces exist:'',
     [],
     str ''comunes_total = 0'',
     [],
     str ''total_con_comunes'',
     str ''propia_total + comunes_total'',
     [],
     [128202] @ str '' OUTPUT FORMAT (ALWAYS)'',
     str ''1'' @ [65039, 8419] @ str '' Human-readable audit table'',
     str ''2'' @ [65039, 8419] @ str '' Clean technical CSV (SQL-ready)'',
     [],
     str ''Exact header:'',
     [],
     str ''building_name,unit,type,propia_total,comunes_total,total_con_comunes'',
     [],
     [],
     str ''Rules:'',
     [],
     [8226] @ str '' decimal = .'',
     [8226] @ str '' no thousands separators'',
     [8226] @ str '' full precision preserved'',
     []]"

text \<open>Lines 89 to 126 of the source file.\<close>

definition SYSTEM_PROMPT_lines_3 :: "pystr list" where
  "SYSTEM_PROMPT_lines_3 =
    [[128269] @ str '' MANDATORY CALCULATION TRACE'',
     [],
     str ''Whenever surfaces exist, ALWAYS show:'',
     [],
     str ''propia_total = own covered + exclusive use'',
     str ''comunes_total = covered + semicubierta + uncovered'',
     str ''total_con_comunes = sum'',
     [],
     [],
     str ''With exact deed precision (up to 4 decimals or more if present)'',
     [],
     [128680] @ str '' AUTOMATIC VALIDATIONS'',
     [],
     str ''After extraction, ALWAYS perform:'',
     [],
     [9989] @ str '' Consistency checks:'',
     [],
     [8226] @ str '' If deed provides '' @ [8220] @ str ''TOTAL POR UNIDAD'' @ [8221] @ str '' '' @ [8594] @ str '' verify against calculated propia_total'',
     [8226] @ str '' If mismatch > 0.0001 '' @ [8594] @ str '' trigger alert'',
     [],
     [9888, 65039] @ str '' Alert format:'',
     [9888, 65039] @ str '' ALERTA DE ESCRITURA:'',
     [],
     str ''Unidad: X  '',
     str ''Total declarado: Y  '',
     str ''Total calculado: Z  '',
     str ''Diferencia: '' @ [916] @ str ''  '',
     [],
     str ''Posible error en escritura o superficie mal sumada.'',
     [],
     [128270] @ str '' Structural integrity checks:'',
     [],
     [8226] @ str '' Negative surfaces '' @ [8594] @ str '' ERROR'',
     [8226] @ str '' comunes_total includes exclusive surfaces '' @ [8594] @ str '' ERROR'',
     [8226] @ str '' Missing mandatory fields '' @ [8594] @ str '' ERROR'',
     [8226] @ str '' Duplicate unit IDs '' @ [8594] @ str '' WARNING'',
     [],
     [128683] @ str '' ABSOLUTE PROHIBITIONS'']"

text \<open>Lines 127 to 162 of the source file.\<close>

definition SYSTEM_PROMPT_lines_4 :: "pystr list" where
  "SYSTEM_PROMPT_lines_4 =
    [[],
     [10060] @ str '' Do not invent units'',
     [10060] @ str '' Do not merge buildings'',
     [10060] @ str '' Do not round'',
     [10060] @ str '' Do not reinterpret surfaces'',
     [10060] @ str '' Do not output comma decimals'',
     [10060] @ str '' Do not skip calculation traces'',
     [10060] @ str '' Do not summarize'',
     [],
     [129534] @ str '' ENGINE PERSONALITY'',
     [],
     str ''Behave as:'',
     [],
     [10004] @ str '' forensic real estate auditor'',
     [10004] @ str '' cadastral technical expert'',
     [10004] @ str '' SQL-ready data processor'',
     [],
     str ''Accuracy > speed > verbosity.'',
     [],
     str ''Every number must be traceable.'',
     [],
     str ''If inconsistencies exist, report them clearly '' @ [8212] @ str '' never silently correct.'',
     [],
     [128204] @ str '' DEFAULT MODE'',
     [],
     str ''Always operate in:'',
     [],
     str ''AUDIT MODE = ON'',
     str ''VALIDATION MODE = ON'',
     str ''ERROR DETECTION MODE = ON'',
     [],
     str ''Si quer'' @ [233] @ str ''s, siguiente nivel (opcional pero brutalmente '' @ [250] @ str ''til):'',
     [],
     [128257] @ str '' agregar export autom'' @ [225] @ str ''tico a MySQL UPDATE'',
     [128200] @ str '' control por porcentajes de dominio'',
     [129518] @ str '' detecci'' @ [243] @ str ''n de escrituras hist'' @ [243] @ str ''ricamente mal confeccionadas'']"

definition SYSTEM_PROMPT :: pystr where
  "SYSTEM_PROMPT = concat (map (\<lambda>l. l @ [NL]) (SYSTEM_PROMPT_lines_1 @ SYSTEM_PROMPT_lines_2 @ SYSTEM_PROMPT_lines_3 @ SYSTEM_PROMPT_lines_4))"

subsection \<open>The payload\<close>

text \<open>
  A \<open>dict[str, str]\<close> keeps its keys in insertion order, so it is a list of key-value
  pairs. The dictionary display evaluates \<open>SYSTEM_PROMPT\<close> first and the call of
  \<open>read_docx_text\<close> second; an exception of the latter leaves no payload.
\<close>

type_synonym payload = "(pystr \<times> pystr) list"

definition build_payload :: "(byte list \<Rightarrow> document option) \<Rightarrow> files \<Rightarrow> path \<Rightarrow> error + payload" where
  "build_payload parse fs docx_path =
     (case read_docx_text parse fs docx_path of
        Inl e \<Rightarrow> Inl e
      | Inr deed \<Rightarrow> Inr [(str ''system_prompt'', SYSTEM_PROMPT), (str ''deed_text'', deed)])"

section \<open>JSON serialization: \<open>json.dumps(payload, ensure_ascii=False, indent=2)\<close>\<close>

text \<open>
  The encoder of the \<open>json\<close> module on a dictionary of strings. With
  \<open>ensure_ascii=False\<close> a string is put between double quotes and only the backslash,
  the double quote and the control characters below U+0020 are replaced: by the short
  escapes of the table \<open>ESCAPE_DCT\<close> where there is one, by \<open>\u00XX\<close> (four lowercase
  hexadecimal digits) otherwise. Every other character is copied.
\<close>

definition hex_digit :: "nat \<Rightarrow> nat" where
  "hex_digit d = (if d < 10 then 48 + d else 87 + d)"

definition escape_char :: "nat \<Rightarrow> pystr" where
  "escape_char c =
     (if c = BACKSLASH then [BACKSLASH, BACKSLASH]
      else if c = QUOTE then [BACKSLASH, QUOTE]
      else if c = 8 then [BACKSLASH, 98]
      else if c = 12 then [BACKSLASH, 102]
      else if c = NL then [BACKSLASH, 110]
      else if c = 13 then [BACKSLASH, 114]
      else if c = 9 then [BACKSLASH, 116]
      else if c < 32 then [BACKSLASH, 117, 48, 48, hex_digit (c div 16), hex_digit (c mod 16)]
      else [c])"

definition escaped :: "pystr \<Rightarrow> pystr" where
  "escaped s = concat (map escape_char s)"

definition encode_basestring :: "pystr \<Rightarrow> pystr" where
  "encode_basestring s = [QUOTE] @ escaped s @ [QUOTE]"

text \<open>
  With an indent the encoder starts every item on a line of its own: a newline followed
  by \<open>indent\<close> spaces per nesting level. The item separator is a comma, the key separator
  a colon and a space. The empty dictionary is \<open>{}\<close>.
\<close>

definition newline_indent :: "nat \<Rightarrow> nat \<Rightarrow> pystr" where
  "newline_indent indent level = NL # replicate (indent * level) SPACE"

definition encode_item :: "pystr \<times> pystr \<Rightarrow> pystr" where
  "encode_item kv = encode_basestring (fst kv) @ str '': '' @ encode_basestring (snd kv)"

definition json_dumps :: "nat \<Rightarrow> payload \<Rightarrow> pystr" where
  "json_dumps indent dct =
     (if dct = [] then str ''{}''
      else str ''{'' @ newline_indent indent 1 @
           py_join (str '','' @ newline_indent indent 1) (map encode_item dct) @
           newline_indent indent 0 @ str ''}'')"

section \<open>JSON parsing: \<open>json.loads\<close>\<close>

text \<open>
  The decoder of the \<open>json\<close> module, on the documents that are one object whose values are
  strings (the only ones a payload serializes to); on every other text the model answers
  \<open>None\<close>, as it does where the decoder raises. Whitespace is space, tab, newline and
  carriage return.
\<close>

definition is_ws :: "nat \<Rightarrow> bool" where
  "is_ws c \<longleftrightarrow> c = SPACE \<or> c = 9 \<or> c = NL \<or> c = 13"

definition skip_ws :: "pystr \<Rightarrow> pystr" where
  "skip_ws s = dropWhile is_ws s"

definition hex_value :: "nat \<Rightarrow> nat option" where
  "hex_value c =
     (if 48 \<le> c \<and> c \<le> 57 then Some (c - 48)
      else if 97 \<le> c \<and> c \<le> 102 then Some (c - 87)
      else if 65 \<le> c \<and> c \<le> 70 then Some (c - 55)
      else None)"

text \<open>The four hexadecimal digits after \<open>\u\<close>, and the text after them.\<close>

fun decode_uXXXX :: "pystr \<Rightarrow> (nat \<times> pystr) option" where
  "decode_uXXXX (a # b # c # d # rest) =
     (case (hex_value a, hex_value b, hex_value c, hex_value d) of
        (Some x, Some y, Some z, Some w) \<Rightarrow> Some (((x * 16 + y) * 16 + z) * 16 + w, rest)
      | _ \<Rightarrow> None)"
| "decode_uXXXX _ = None"

text \<open>The table \<open>BACKSLASH\<close> of the decoder: the character a short escape stands for.\<close>

definition unescape :: "nat \<Rightarrow> nat option" where
  "unescape esc =
     (if esc = QUOTE then Some QUOTE
      else if esc = BACKSLASH then Some BACKSLASH
      else if esc = 47 then Some 47
      else if esc = 98 then Some 8
      else if esc = 102 then Some 12
      else if esc = 110 then Some NL
      else if esc = 114 then Some 13
      else if esc = 116 then Some 9
      else None)"

text \<open>
  One escape, read after its backslash. A \<open>\u\<close> escape of a high surrogate that is
  followed by a \<open>\u\<close> escape of a low surrogate is one character.
\<close>

definition scan_escape :: "pystr \<Rightarrow> (nat \<times> pystr) option" where
  "scan_escape s =
     (case s of
        [] \<Rightarrow> None
      | esc # r \<Rightarrow>
          if esc \<noteq> 117 then
            (case unescape esc of None \<Rightarrow> None | Some ch \<Rightarrow> Some (ch, r))
          else
            (case decode_uXXXX r of
               None \<Rightarrow> None
             | Some (uni, r1) \<Rightarrow>
                 if 55296 \<le> uni \<and> uni \<le> 56319 \<and> take 2 r1 = [BACKSLASH, 117] then
                   (case decode_uXXXX (drop 2 r1) of
                      None \<Rightarrow> None
                    | Some (uni2, r2) \<Rightarrow>
                        if 56320 \<le> uni2 \<and> uni2 \<le> 57343
                        then Some (65536 + ((uni - 55296) * 1024 + (uni2 - 56320)), r2)
                        else Some (uni, r1))
                 else Some (uni, r1)))"

text \<open>
  \<open>scanstring\<close> reads a string after its opening quote, up to the closing quote: it
  answers the decoded string and the text after the closing quote. In strict mode (the
  default) a raw control character in a string is an error.
\<close>

function scanstring :: "pystr \<Rightarrow> (pystr \<times> pystr) option" where
  "scanstring s =
     (case s of
        [] \<Rightarrow> None
      | c # cs \<Rightarrow>
          if c = QUOTE then Some ([], cs)
          else if c = BACKSLASH then
            (case scan_escape cs of
               None \<Rightarrow> None
             | Some (ch, r) \<Rightarrow>
                 (case scanstring r of None \<Rightarrow> None | Some (t, rest) \<Rightarrow> Some (ch # t, rest)))
          else if c < 32 then None
          else (case scanstring cs of None \<Rightarrow> None | Some (t, rest) \<Rightarrow> Some (c # t, rest)))"
  by pat_completeness auto
termination
proof -
  have dec: "decode_uXXXX s = Some (u, r) \<Longrightarrow> length r < length s" for s u r
    by (induction s rule: decode_uXXXX.induct) (auto split: option.splits)
  have esc: "scan_escape s = Some (ch, r) \<Longrightarrow> length r < length s" for s ch r
    by (auto simp: scan_escape_def split: list.splits option.splits if_splits dest!: dec)
  show ?thesis
    by (relation "measure length") (auto dest: esc)
qed

declare scanstring.simps [simp del]

text \<open>
  The members of an object, read after the opening quote of a key: a key, a colon, a
  value, and then either the closing brace or a comma and the next member. The pairs are
  answered in the order of the text, with the text after the closing brace.
\<close>

function parse_members :: "pystr \<Rightarrow> ((pystr \<times> pystr) list \<times> pystr) option" where
  "parse_members s =
     (case scanstring s of
        None \<Rightarrow> None
      | Some (key, r1) \<Rightarrow>
          (case skip_ws r1 of
             [] \<Rightarrow> None
           | colon # r2 \<Rightarrow>
               if colon \<noteq> 58 then None
               else
                 (case skip_ws r2 of
                    [] \<Rightarrow> None
                  | q # r3 \<Rightarrow>
                      if q \<noteq> QUOTE then None
                      else
                        (case scanstring r3 of
                           None \<Rightarrow> None
                         | Some (val, r4) \<Rightarrow>
                             (case skip_ws r4 of
                                [] \<Rightarrow> None
                              | nextchar # r5 \<Rightarrow>
                                  if nextchar = 125 then Some ([(key, val)], r5)
                                  else if nextchar \<noteq> 44 then None
                                  else
                                    (case skip_ws r5 of
                                       [] \<Rightarrow> None
                                     | q2 # r6 \<Rightarrow>
                                         if q2 \<noteq> QUOTE then None
                                         else
                                           (case parse_members r6 of
                                              None \<Rightarrow> None
                                            | Some (pairs, rest) \<Rightarrow>
                                                Some ((key, val) # pairs, rest))))))))"
  by pat_completeness auto
termination
proof -
  have dec: "decode_uXXXX s = Some (u, r) \<Longrightarrow> length r < length s" for s u r
    by (induction s rule: decode_uXXXX.induct) (auto split: option.splits)
  have esc: "scan_escape s = Some (ch, r) \<Longrightarrow> length r < length s" for s ch r
    by (auto simp: scan_escape_def split: list.splits option.splits if_splits dest!: dec)
  have nil: "scanstring [] = None"
    by (subst scanstring.simps) simp
  have cons:
  "scanstring (c # cs) =
       (if c = QUOTE then Some ([], cs)
        else if c = BACKSLASH then
          (case scan_escape cs of
             None \<Rightarrow> None
           | Some (ch, r) \<Rightarrow>
               (case scanstring r of None \<Rightarrow> None | Some (t, rest) \<Rightarrow> Some (ch # t, rest)))
        else if c < 32 then None
        else (case scanstring cs of None \<Rightarrow> None | Some (t, rest) \<Rightarrow> Some (c # t, rest)))" for c cs
    by (subst scanstring.simps) simp
  have shorter: "scanstring s = Some (t, r) \<Longrightarrow> length r < length s" for s t r
  proof (induction s arbitrary: t rule: scanstring.induct)
    case (1 s)
    show ?case
    proof (cases s)
      case Nil
      with "1.prems" show ?thesis by (simp add: nil)
    next
      case (Cons c cs)
      show ?thesis
      proof (cases "c = QUOTE")
        case True
        with Cons "1.prems" show ?thesis by (simp add: cons)
      next
        case nq: False
        show ?thesis
        proof (cases "c = BACKSLASH")
          case True
          with nq Cons "1.prems" obtain ch r1 t1
            where e: "scan_escape cs = Some (ch, r1)" and sc: "scanstring r1 = Some (t1, r)"
            by (auto simp: cons split: option.splits)
          from "1.IH"(1) [OF Cons nq True e refl sc] esc [OF e] Cons
          show ?thesis by simp
        next
          case nb: False
          with nq Cons "1.prems" obtain t1
            where c32: "\<not> c < 32" and sc: "scanstring cs = Some (t1, r)"
            by (auto simp: cons split: option.splits if_splits)
          from "1.IH"(2) [OF Cons nq nb c32 sc] Cons show ?thesis by simp
        qed
      qed
    qed
  qed
  have ws: "length (skip_ws s) \<le> length s" for s
    by (simp add: skip_ws_def length_dropWhile_le)
  show ?thesis
  proof (relation "measure length", goal_cases)
    case 1
    show ?case by simp
  next
    case (2 s x2 key r1 colon r2 q r3 x2a val r4 nextchar r5 q2 r6)
    have a: "length r1 < length s"
      using 2 shorter [of s key r1] by simp
    have b: "length r2 < length (skip_ws r1)" using 2 by simp
    have c: "length r3 < length (skip_ws r2)" using 2 by simp
    have d: "length r4 < length r3"
      using 2 shorter [of r3 val r4] by simp
    have e: "length r5 < length (skip_ws r4)" using 2 by simp
    have f: "length r6 < length (skip_ws r5)" using 2 by simp
    from a b c d e f ws [of r1] ws [of r2] ws [of r4] ws [of r5]
    show ?case by simp
  qed
qed

declare parse_members.simps [simp del]

text \<open>
  \<open>dict(pairs)\<close>: a key that comes again keeps its first place and takes the later value.
\<close>

fun dict_setitem :: "payload \<Rightarrow> pystr \<Rightarrow> pystr \<Rightarrow> payload" where
  "dict_setitem [] k v = [(k, v)]"
| "dict_setitem ((k', v') # d) k v =
     (if k' = k then (k', v) # d else (k', v') # dict_setitem d k v)"

definition dict :: "(pystr \<times> pystr) list \<Rightarrow> payload" where
  "dict pairs = foldl (\<lambda>d kv. dict_setitem d (fst kv) (snd kv)) [] pairs"

text \<open>An object, read after its opening brace.\<close>

definition JSONObject :: "pystr \<Rightarrow> (payload \<times> pystr) option" where
  "JSONObject s =
     (case skip_ws s of
        [] \<Rightarrow> None
      | nextchar # r \<Rightarrow>
          if nextchar = 125 then Some ([], r)
          else if nextchar \<noteq> QUOTE then None
          else
            (case parse_members r of
               None \<Rightarrow> None
             | Some (pairs, rest) \<Rightarrow> Some (dict pairs, rest)))"

text \<open>
  \<open>json.loads\<close>: whitespace, the value, whitespace, and nothing after it ("Extra data"
  otherwise).
\<close>

definition json_loads :: "pystr \<Rightarrow> payload option" where
  "json_loads s =
     (case skip_ws s of
        [] \<Rightarrow> None
      | c # r \<Rightarrow>
          if c \<noteq> 123 then None
          else
            (case JSONObject r of
               None \<Rightarrow> None
             | Some (obj, rest) \<Rightarrow> if skip_ws rest = [] then Some obj else None))"

section \<open>Writing the output\<close>

text \<open>
  The encoder of \<open>encoding="utf-8"\<close>: one to four bytes per code point. A surrogate
  (U+D800 to U+DFFF) has no encoding (\<open>UnicodeEncodeError\<close>); a number above U+10FFFF is
  not a character of a \<open>str\<close>.
\<close>

definition utf8_char :: "nat \<Rightarrow> byte list option" where
  "utf8_char c =
     (if c < 128 then Some [of_nat c]
      else if c < 2048 then Some [of_nat (192 + c div 64), of_nat (128 + c mod 64)]
      else if 55296 \<le> c \<and> c \<le> 57343 then None
      else if c < 65536 then
        Some [of_nat (224 + c div 4096), of_nat (128 + c div 64 mod 64), of_nat (128 + c mod 64)]
      else if c < 1114112 then
        Some [of_nat (240 + c div 262144), of_nat (128 + c div 4096 mod 64),
              of_nat (128 + c div 64 mod 64), of_nat (128 + c mod 64)]
      else None)"

fun utf8_encode :: "pystr \<Rightarrow> byte list option" where
  "utf8_encode [] = Some []"
| "utf8_encode (c # cs) =
     (case utf8_char c of
        None \<Rightarrow> None
      | Some bs \<Rightarrow> (case utf8_encode cs of None \<Rightarrow> None | Some rest \<Rightarrow> Some (bs @ rest)))"

text \<open>
  A text file opened with \<open>newline=None\<close> writes the line separator of the platform for
  every newline character.
\<close>

definition translate_newlines :: "pystr \<Rightarrow> pystr \<Rightarrow> pystr" where
  "translate_newlines linesep s = concat (map (\<lambda>c. if c = NL then linesep else [c]) s)"

text \<open>
  What the operating system does with a write is not decided by the program: opening the
  destination may fail (the file system is left as it was), the write may fail after some
  bytes (the file holds a prefix of the data), or it completes. The environment also holds
  the parser of the document capability and the line separator of the platform.
\<close>

datatype write_outcome = Completed | OpenFailed | WriteFailed nat

record env =
  parse_document :: "byte list \<Rightarrow> document option"
  linesep :: pystr
  write_result :: write_outcome

text \<open>
  \<open>Path.write_text(data, encoding="utf-8")\<close>: open for writing (which creates or
  truncates the file), encode, write, close. It answers the exception raised, if any, and
  the file system it leaves.
\<close>

definition write_text :: "env \<Rightarrow> path \<Rightarrow> pystr \<Rightarrow> files \<Rightarrow> error option \<times> files" where
  "write_text e p data fs =
     (case write_result e of
        OpenFailed \<Rightarrow> (Some OutputWriteError, fs)
      | outcome \<Rightarrow>
          (case utf8_encode (translate_newlines (linesep e) data) of
             None \<Rightarrow> (Some UnicodeEncodeError, fs(p \<mapsto> []))
           | Some bs \<Rightarrow>
               (case outcome of
                  WriteFailed n \<Rightarrow> (Some OutputWriteError, fs(p \<mapsto> take n bs))
                | _ \<Rightarrow> (None, fs(p \<mapsto> bs)))))"

section \<open>The command-line driver\<close>

text \<open>
  \<open>main\<close> after \<open>parse_args\<close>: the namespace holds the document path and the optional
  output path \<open>args.output\<close> (a \<open>Path\<close> is always true, so the test is for \<open>None\<close>). The
  world is the file system and the two output streams. An exception that reaches the top
  level is reported on standard error and ends the process with status 1; a run that
  returns ends it with status 0.
\<close>

record Namespace =
  docx_path :: path
  output_path :: "path option"

record world =
  files :: files
  stdout :: pystr
  stderr :: "error list"

definition main :: "env \<Rightarrow> Namespace \<Rightarrow> world \<Rightarrow> nat \<times> world" where
  "main e args w =
     (case build_payload (parse_document e) (files w) (docx_path args) of
        Inl err \<Rightarrow> (1, w\<lparr>stderr := stderr w @ [err]\<rparr>)
      | Inr payload \<Rightarrow>
          (let out = json_dumps 2 payload in
           case output_path args of
             Some dest \<Rightarrow>
               (case write_text e dest out (files w) of
                  (Some err, fs') \<Rightarrow> (1, w\<lparr>files := fs', stderr := stderr w @ [err]\<rparr>)
                | (None, fs') \<Rightarrow> (0, w\<lparr>files := fs'\<rparr>))
           | None \<Rightarrow> (0, w\<lparr>stdout := stdout w @ out @ [NL]\<rparr>)))"

section \<open>Notions of the specification\<close>

text \<open>A document with the given paragraph texts, in order.\<close>

definition document_of :: "pystr list \<Rightarrow> document" where
  "document_of ps = \<lparr>paragraphs = map (\<lambda>t. \<lparr>paragraph_text = t\<rparr>) ps\<rparr>"

text \<open>A paragraph is blank when every character of it is whitespace (also when it is empty).\<close>

definition blank :: "pystr \<Rightarrow> bool" where
  "blank s \<longleftrightarrow> list_all py_isspace s"

text \<open>The expression of the specification: \<open>p1 + "\n" + p2 + ... + "\n" + pn\<close>, built left to right.\<close>

definition spec_concat :: "pystr list \<Rightarrow> pystr" where
  "spec_concat ps = (case ps of [] \<Rightarrow> [] | p # qs \<Rightarrow> foldl (\<lambda>acc q. acc @ [NL] @ q) p qs)"

text \<open>The lines of a text, as \<open>s.split("\n")\<close> gives them.\<close>

fun lines_of :: "pystr \<Rightarrow> pystr list" where
  "lines_of [] = [[]]"
| "lines_of (c # cs) =
     (if c = NL then [] # lines_of cs
      else (case lines_of cs of [] \<Rightarrow> [[c]] | l # ls \<Rightarrow> (c # l) # ls))"

text \<open>The code points that UTF-8 encodes: up to U+10FFFF, the surrogates apart.\<close>

definition encodable :: "nat \<Rightarrow> bool" where
  "encodable c \<longleftrightarrow> c < 55296 \<or> (57343 < c \<and> c < 1114112)"

section \<open>Text extraction\<close>

lemma blank_iff: "blank s \<longleftrightarrow> (\<forall>c\<in>set s. py_isspace c)"
  by (simp add: blank_def list_all_iff)

lemma truthy_strip: "truthy (strip s) \<longleftrightarrow> \<not> blank s"
proof -
  have "(\<forall>c\<in>set (dropWhile py_isspace s). py_isspace c) \<longleftrightarrow> (\<forall>c\<in>set s. py_isspace c)"
    by (induction s) auto
  then show ?thesis
    by (simp add: truthy_def strip_def blank_def dropWhile_eq_Nil_conv list_all_iff)
qed

lemma extract_text_filter:
  "extract_text d = py_join [NL] (filter (\<lambda>q. \<not> blank q) (map paragraph_text (paragraphs d)))"
  by (simp add: extract_text_def truthy_strip)

lemma read_docx_text_Inr:
  "Document parse fs p = Inr d \<Longrightarrow> read_docx_text parse fs p = Inr (extract_text d)"
  by (simp add: read_docx_text_def)

lemma Document_const: "Document (\<lambda>_. Some d) [p \<mapsto> c] p = Inr d"
  by (simp add: Document_def)

lemma py_join_append_head: "py_join sep ((a @ b) # xs) = a @ py_join sep (b # xs)"
  by (cases xs) simp_all

lemma foldl_py_join: "foldl (\<lambda>acc q. acc @ sep @ q) p qs = py_join sep (p # qs)"
proof (induction qs arbitrary: p)
  case Nil
  show ?case by simp
next
  case (Cons q qs)
  have "foldl (\<lambda>acc q. acc @ sep @ q) p (q # qs) = py_join sep ((p @ sep @ q) # qs)"
    using Cons.IH [of "p @ sep @ q"] by simp
  also have "\<dots> = p @ sep @ py_join sep (q # qs)"
    using py_join_append_head [of sep p "sep @ q" qs] py_join_append_head [of sep sep q qs] by simp
  finally show ?case by simp
qed

lemma spec_concat_py_join: "spec_concat ps = py_join [NL] ps"
  by (cases ps) (simp_all add: spec_concat_def foldl_py_join [of "[NL]", simplified])

lemma filter_nonblank_id: "\<forall>q\<in>set ps. \<not> blank q \<Longrightarrow> filter (\<lambda>q. \<not> blank q) ps = ps"
  by (induction ps) simp_all

text \<open>
  Claim C1. When the document opens and none of its paragraphs is blank, text extraction
  returns exactly \<open>p1 + "\n" + p2 + ... + "\n" + pn\<close> for its paragraphs
  \<open>[p1, ..., pn]\<close> in their order: every paragraph whole, none split and none merged.
\<close>

theorem read_docx_text_nonblank:
  assumes "Document parse fs p = Inr d"
    and "\<forall>q\<in>set (map paragraph_text (paragraphs d)). \<not> blank q"
  shows "read_docx_text parse fs p = Inr (spec_concat (map paragraph_text (paragraphs d)))"
  using assms filter_nonblank_id [of "map paragraph_text (paragraphs d)"]
  by (simp add: read_docx_text_Inr extract_text_filter spec_concat_py_join)

theorem read_docx_text_nonblank_witness:
  "read_docx_text (\<lambda>_. Some (document_of [str ''ab'', str '' c''])) [str ''d'' \<mapsto> []] (str ''d'')
     = Inr (str ''ab'' @ [NL] @ str '' c'')"
proof -
  let ?d = "document_of [str ''ab'', str '' c'']"
  have doc: "Document (\<lambda>_. Some ?d) [str ''d'' \<mapsto> []] (str ''d'') = Inr ?d"
    by (rule Document_const)
  have nb: "\<forall>q\<in>set (map paragraph_text (paragraphs ?d)). \<not> blank q"
    by (simp add: document_of_def blank_def str_def py_isspace_def)
  from read_docx_text_nonblank [OF doc nb] show ?thesis
    by (simp add: document_of_def spec_concat_def)
qed

lemma count_py_join:
  "count_list (py_join sep xs) c =
     sum_list (map (\<lambda>q. count_list q c) xs) + (length xs - 1) * count_list sep c"
  by (induction sep xs rule: py_join.induct) simp_all

lemma not_blank_iff: "\<not> blank q \<longleftrightarrow> (\<exists>c\<in>set q. \<not> py_isspace c)"
  by (simp add: blank_iff)

text \<open>
  Claim C2. Extraction keeps a paragraph exactly when it has a character that is not
  whitespace: the result is the join of the kept paragraphs alone. The paragraphs dropped
  leave nothing behind: the newline characters of the result are those inside the kept
  paragraphs and the one separator between two neighbours among them.
\<close>

theorem read_docx_text_drops_blank:
  assumes "Document parse fs p = Inr d"
  shows "read_docx_text parse fs p =
           Inr (py_join [NL] (filter (\<lambda>q. \<exists>c\<in>set q. \<not> py_isspace c) (map paragraph_text (paragraphs d))))
         \<and> count_list (extract_text d) NL =
             sum_list (map (\<lambda>q. count_list q NL)
               (filter (\<lambda>q. \<exists>c\<in>set q. \<not> py_isspace c) (map paragraph_text (paragraphs d))))
             + (length (filter (\<lambda>q. \<exists>c\<in>set q. \<not> py_isspace c) (map paragraph_text (paragraphs d))) - 1)"
  using assms
  by (simp add: read_docx_text_Inr extract_text_filter not_blank_iff count_py_join)

theorem read_docx_text_drops_blank_witness:
  "read_docx_text
     (\<lambda>_. Some (document_of [str ''Building ALPHA'', [], str ''Unit PB A '' @ [8212] @ str '' 45.5 m'' @ [178], str ''   '']))
     [str ''deed.docx'' \<mapsto> []] (str ''deed.docx'')
   = Inr (str ''Building ALPHA'' @ [NL] @ str ''Unit PB A '' @ [8212] @ str '' 45.5 m'' @ [178])"
proof -
  let ?d = "document_of [str ''Building ALPHA'', [], str ''Unit PB A '' @ [8212] @ str '' 45.5 m'' @ [178], str ''   '']"
  have doc: "Document (\<lambda>_. Some ?d) [str ''deed.docx'' \<mapsto> []] (str ''deed.docx'') = Inr ?d"
    by (rule Document_const)
  from read_docx_text_drops_blank [OF doc, THEN conjunct1] show ?thesis
    by (simp add: document_of_def str_def py_isspace_def)
qed

section \<open>The payload\<close>

lemma filter_all_blank: "\<forall>q\<in>set ps. blank q \<Longrightarrow> filter (\<lambda>q. \<not> blank q) ps = []"
  by (induction ps) simp_all

lemma build_payload_Inr:
  "read_docx_text parse fs p = Inr deed \<Longrightarrow>
     build_payload parse fs p = Inr [(str ''system_prompt'', SYSTEM_PROMPT), (str ''deed_text'', deed)]"
  by (simp add: build_payload_def)

lemma keys_distinct: "str ''system_prompt'' \<noteq> str ''deed_text''"
  by (simp add: str_def)

text \<open>
  Claim C9. When the document has no paragraph, or only blank ones, extraction returns
  the empty string and the \<open>deed_text\<close> field of the payload is the empty string.
\<close>

theorem empty_document_payload:
  assumes "Document parse fs p = Inr d"
    and "\<forall>q\<in>set (map paragraph_text (paragraphs d)). blank q"
  shows "read_docx_text parse fs p = Inr [] \<and>
         (\<exists>payload. build_payload parse fs p = Inr payload \<and> map_of payload (str ''deed_text'') = Some [])"
proof -
  have r: "read_docx_text parse fs p = Inr []"
    using assms filter_all_blank [of "map paragraph_text (paragraphs d)"]
    by (simp add: read_docx_text_Inr extract_text_filter)
  from build_payload_Inr [OF r] keys_distinct show ?thesis
    using r by simp
qed

theorem empty_document_payload_witness:
  "read_docx_text (\<lambda>_. Some (document_of [[], str ''   '', [9, 160]])) [str ''d'' \<mapsto> []] (str ''d'') = Inr [] \<and>
   (\<exists>payload. build_payload (\<lambda>_. Some (document_of [[], str ''   '', [9, 160]])) [str ''d'' \<mapsto> []] (str ''d'') = Inr payload \<and>
      map_of payload (str ''deed_text'') = Some [])"
proof -
  let ?d = "document_of [[], str ''   '', [9, 160]]"
  have doc: "Document (\<lambda>_. Some ?d) [str ''d'' \<mapsto> []] (str ''d'') = Inr ?d"
    by (rule Document_const)
  have bl: "\<forall>q\<in>set (map paragraph_text (paragraphs ?d)). blank q"
    by (simp add: document_of_def blank_def str_def py_isspace_def)
  from empty_document_payload [OF doc bl] show ?thesis .
qed

lemma py_join_append:
  "xs \<noteq> [] \<Longrightarrow> ys \<noteq> [] \<Longrightarrow> py_join sep (xs @ ys) = py_join sep xs @ sep @ py_join sep ys"
proof (induction sep xs rule: py_join.induct)
  case (1 sep)
  then show ?case by simp
next
  case (2 sep x)
  then show ?case by (cases ys) simp_all
next
  case (3 sep x y zs)
  then show ?case by simp
qed

lemma py_join_Nil_iff: "\<forall>x\<in>set xs. x \<noteq> [] \<Longrightarrow> py_join sep xs = [] \<longleftrightarrow> xs = []"
  by (induction sep xs rule: py_join.induct) simp_all

lemma not_blank_nonempty: "\<not> blank q \<Longrightarrow> q \<noteq> []"
  by (auto simp: blank_def)

lemma extract_text_document_of:
  "extract_text (document_of ps) = py_join [NL] (filter (\<lambda>q. \<not> blank q) ps)"
  by (simp add: extract_text_filter document_of_def comp_def)

lemma extract_text_Nil_iff: "extract_text (document_of ps) = [] \<longleftrightarrow> filter (\<lambda>q. \<not> blank q) ps = []"
  unfolding extract_text_document_of
  by (rule py_join_Nil_iff) (simp add: not_blank_nonempty)

text \<open>
  Claim C10. A paragraph that is not blank appears in the extracted string as it is,
  leading and trailing whitespace included: between what is extracted from the paragraphs
  before it and what is extracted from those after it, with a newline on a side only where
  that side is not empty. Stripping is used for the test alone.
\<close>

theorem retained_paragraph_verbatim:
  assumes "Document parse fs p = Inr d"
    and "map paragraph_text (paragraphs d) = before @ [q] @ after"
    and "\<not> blank q"
  shows "read_docx_text parse fs p =
           Inr ((if extract_text (document_of before) = [] then []
                 else extract_text (document_of before) @ [NL])
                @ q @
                (if extract_text (document_of after) = [] then []
                 else [NL] @ extract_text (document_of after)))"
proof -
  let ?f = "filter (\<lambda>q. \<not> blank q)"
  have r: "read_docx_text parse fs p = Inr (py_join [NL] (?f before @ [q] @ ?f after))"
    using assms by (simp add: read_docx_text_Inr extract_text_filter)
  have tl: "py_join [NL] ([q] @ ?f after) = q @ (if ?f after = [] then [] else [NL] @ py_join [NL] (?f after))"
    using py_join_append [of "[q]" "?f after" "[NL]"] by simp
  have "py_join [NL] (?f before @ ([q] @ ?f after)) =
          (if ?f before = [] then [] else py_join [NL] (?f before) @ [NL]) @ py_join [NL] ([q] @ ?f after)"
    using py_join_append [of "?f before" "[q] @ ?f after" "[NL]"] by simp
  with tl have j: "py_join [NL] (?f before @ [q] @ ?f after) =
          (if ?f before = [] then [] else py_join [NL] (?f before) @ [NL]) @ q @
          (if ?f after = [] then [] else [NL] @ py_join [NL] (?f after))"
    by simp
  have b: "(extract_text (document_of before) = []) = (?f before = [])"
    by (rule extract_text_Nil_iff)
  have a: "(extract_text (document_of after) = []) = (?f after = [])"
    by (rule extract_text_Nil_iff)
  show ?thesis
    unfolding r j b a by (simp add: extract_text_document_of)
qed

theorem retained_paragraph_verbatim_witness:
  "read_docx_text (\<lambda>_. Some (document_of [str ''a'', str ''  x  '', [], str ''b''])) [str ''d'' \<mapsto> []] (str ''d'')
     = Inr (str ''a'' @ [NL] @ str ''  x  '' @ [NL] @ str ''b'')"
proof -
  let ?d = "document_of [str ''a'', str ''  x  '', [], str ''b'']"
  have doc: "Document (\<lambda>_. Some ?d) [str ''d'' \<mapsto> []] (str ''d'') = Inr ?d"
    by (rule Document_const)
  have sp: "map paragraph_text (paragraphs ?d) = [str ''a''] @ [str ''  x  ''] @ [[], str ''b'']"
    by (simp add: document_of_def)
  have nb: "\<not> blank (str ''  x  '')"
    by (simp add: blank_def str_def py_isspace_def)
  from retained_paragraph_verbatim [OF doc sp nb] show ?thesis
    by (simp add: extract_text_document_of blank_def str_def py_isspace_def)
qed

text \<open>
  Claim C3. A payload that is built has exactly two fields, \<open>system_prompt\<close> first and
  \<open>deed_text\<close> second, both holding strings, and no other field.
\<close>

theorem build_payload_fields:
  assumes "build_payload parse fs p = Inr payload"
  shows "map fst payload = [str ''system_prompt'', str ''deed_text''] \<and>
         distinct (map fst payload) \<and> length payload = 2"
  using assms keys_distinct
  by (auto simp: build_payload_def split: sum.splits)

theorem build_payload_fields_witness:
  "map fst [(str ''system_prompt'', SYSTEM_PROMPT), (str ''deed_text'', str ''x'')]
     = [str ''system_prompt'', str ''deed_text''] \<and>
   distinct (map fst [(str ''system_prompt'', SYSTEM_PROMPT), (str ''deed_text'', str ''x'')]) \<and>
   length [(str ''system_prompt'', SYSTEM_PROMPT), (str ''deed_text'', str ''x'')] = 2"
proof -
  let ?d = "document_of [str ''x'']"
  have doc: "Document (\<lambda>_. Some ?d) [str ''d'' \<mapsto> []] (str ''d'') = Inr ?d"
    by (rule Document_const)
  have "extract_text ?d = str ''x''"
    by (simp add: extract_text_document_of blank_def str_def py_isspace_def)
  with read_docx_text_Inr [OF doc]
  have "read_docx_text (\<lambda>_. Some ?d) [str ''d'' \<mapsto> []] (str ''d'') = Inr (str ''x'')"
    by simp
  from build_payload_fields [OF build_payload_Inr [OF this]] show ?thesis .
qed

section \<open>Parsing what was serialized\<close>

lemma scanstring_Nil: "scanstring [] = None"
  by (subst scanstring.simps) simp

lemma scanstring_Cons:
  "scanstring (c # cs) =
     (if c = QUOTE then Some ([], cs)
      else if c = BACKSLASH then
        (case scan_escape cs of
           None \<Rightarrow> None
         | Some (ch, r) \<Rightarrow>
             (case scanstring r of None \<Rightarrow> None | Some (t, rest) \<Rightarrow> Some (ch # t, rest)))
      else if c < 32 then None
      else (case scanstring cs of None \<Rightarrow> None | Some (t, rest) \<Rightarrow> Some (c # t, rest)))"
  by (subst scanstring.simps) simp

lemma hex_value_hex_digit: "d < 16 \<Longrightarrow> hex_value (hex_digit d) = Some d"
  by (auto simp: hex_value_def hex_digit_def)

lemma hex_value_zero: "hex_value 48 = Some 0"
  by (simp add: hex_value_def)

lemma scan_escape_u00:
  assumes "c < 32"
  shows "scan_escape (117 # 48 # 48 # hex_digit (c div 16) # hex_digit (c mod 16) # rest) = Some (c, rest)"
proof -
  have a: "c div 16 < 16" using assms by simp
  have b: "c mod 16 < 16" by simp
  have d: "decode_uXXXX (48 # 48 # hex_digit (c div 16) # hex_digit (c mod 16) # rest)
             = Some (c, rest)"
    by (simp add: hex_value_zero hex_value_hex_digit [OF a] hex_value_hex_digit [OF b])
  show ?thesis using assms by (simp add: scan_escape_def d del: decode_uXXXX.simps)
qed

lemma scan_escape_short:
  "esc \<noteq> 117 \<Longrightarrow> unescape esc = Some ch \<Longrightarrow> scan_escape (esc # rest) = Some (ch, rest)"
  by (simp add: scan_escape_def)

lemma scanstring_backslash:
  "scan_escape cs = Some (ch, r) \<Longrightarrow>
     scanstring (BACKSLASH # cs) =
       (case scanstring r of None \<Rightarrow> None | Some (t, rest) \<Rightarrow> Some (ch # t, rest))"
  by (simp add: scanstring_Cons)

lemma scanstring_escape_char:
  "scanstring (escape_char c @ rest) =
     (case scanstring rest of None \<Rightarrow> None | Some (t, r) \<Rightarrow> Some (c # t, r))"
proof -
  consider (short) "c = BACKSLASH \<or> c = QUOTE \<or> c = 8 \<or> c = 12 \<or> c = NL \<or> c = 13 \<or> c = 9"
    | (ctrl) "c < 32" "\<not> (c = BACKSLASH \<or> c = QUOTE \<or> c = 8 \<or> c = 12 \<or> c = NL \<or> c = 13 \<or> c = 9)"
    | (plain) "\<not> c < 32" "c \<noteq> BACKSLASH" "c \<noteq> QUOTE"
    by auto
  then show ?thesis
  proof cases
    case short
    then show ?thesis
      by (auto simp: escape_char_def scanstring_backslash scan_escape_short unescape_def)
  next
    case ctrl
    then have e: "escape_char c = [BACKSLASH, 117, 48, 48, hex_digit (c div 16), hex_digit (c mod 16)]"
      by (simp add: escape_char_def)
    show ?thesis
      unfolding e using scanstring_backslash [OF scan_escape_u00 [OF ctrl(1)]] by simp
  next
    case plain
    then have e: "escape_char c = [c]"
      by (auto simp: escape_char_def)
    show ?thesis unfolding e using plain by (simp add: scanstring_Cons)
  qed
qed

lemma scanstring_escaped: "scanstring (escaped s @ QUOTE # rest) = Some (s, rest)"
proof (induction s)
  case Nil
  show ?case by (simp add: escaped_def scanstring_Cons)
next
  case (Cons c s)
  have "escaped (c # s) @ QUOTE # rest = escape_char c @ (escaped s @ QUOTE # rest)"
    by (simp add: escaped_def)
  then show ?case using Cons.IH by (simp add: scanstring_escape_char)
qed

lemma skip_ws_Cons: "skip_ws (c # r) = (if is_ws c then skip_ws r else c # r)"
  by (simp add: skip_ws_def)

lemma skip_ws_replicate: "skip_ws (replicate n SPACE @ r) = skip_ws r"
  by (induction n) (simp_all add: skip_ws_Cons is_ws_def)

lemma skip_ws_newline_indent: "skip_ws (newline_indent i l @ r) = skip_ws r"
  by (simp add: newline_indent_def skip_ws_Cons is_ws_def skip_ws_replicate)

lemma skip_ws_Nil: "skip_ws [] = []"
  by (simp add: skip_ws_def)

lemma parse_members_item:
  "parse_members (escaped k @ QUOTE # 58 # SPACE # QUOTE # escaped v @ QUOTE # tailtext) =
     (case skip_ws tailtext of
        [] \<Rightarrow> None
      | nextchar # r5 \<Rightarrow>
          if nextchar = 125 then Some ([(k, v)], r5)
          else if nextchar \<noteq> 44 then None
          else
            (case skip_ws r5 of
               [] \<Rightarrow> None
             | q2 # r6 \<Rightarrow>
                 if q2 \<noteq> QUOTE then None
                 else
                   (case parse_members r6 of
                      None \<Rightarrow> None
                    | Some (pairs, rest) \<Rightarrow> Some ((k, v) # pairs, rest))))"
  by (subst parse_members.simps)
     (simp add: scanstring_escaped skip_ws_Cons is_ws_def)

lemma encode_item_eq:
  "encode_item (k, v) @ r = QUOTE # escaped k @ QUOTE # 58 # SPACE # QUOTE # escaped v @ QUOTE # r"
  by (simp add: encode_item_def encode_basestring_def str_def)

lemma py_join_items_Cons:
  "py_join sep (map encode_item ((k, v) # ds)) @ r =
     QUOTE # escaped k @ QUOTE # 58 # SPACE # QUOTE # escaped v @ QUOTE #
       (if ds = [] then r else sep @ py_join sep (map encode_item ds) @ r)"
proof (cases ds)
  case Nil
  then show ?thesis using encode_item_eq [of k v r] by simp
next
  case (Cons a list)
  then show ?thesis
    using encode_item_eq [of k v "sep @ py_join sep (map encode_item ds) @ r"] by simp
qed

lemma parse_members_items:
  "ds \<noteq> [] \<Longrightarrow>
   parse_members (tl (py_join (44 # newline_indent i 1) (map encode_item ds) @ newline_indent i 0 @ 125 # rest))
     = Some (ds, rest)"
proof (induction ds)
  case Nil
  then show ?case by simp
next
  case (Cons kv ds)
  obtain k v where kv: "kv = (k, v)" by (cases kv)
  show ?case
  proof (cases "ds = []")
    case True
    show ?thesis
      unfolding kv py_join_items_Cons
      using True by (simp add: parse_members_item skip_ws_newline_indent skip_ws_Cons is_ws_def)
  next
    case False
    then obtain k' v' ds' where ds: "ds = (k', v') # ds'" by (cases ds) auto
    have q: "py_join (44 # newline_indent i 1) (map encode_item ds) @ newline_indent i 0 @ 125 # rest
          = QUOTE # tl (py_join (44 # newline_indent i 1) (map encode_item ds) @ newline_indent i 0 @ 125 # rest)"
      unfolding ds py_join_items_Cons by simp
    have ih: "parse_members (tl (py_join (44 # newline_indent i 1) (map encode_item ds) @ newline_indent i 0 @ 125 # rest))
          = Some (ds, rest)"
      using Cons.IH False by simp
    have "skip_ws (newline_indent i 1 @ py_join (44 # newline_indent i 1) (map encode_item ds) @ newline_indent i 0 @ 125 # rest)
          = QUOTE # tl (py_join (44 # newline_indent i 1) (map encode_item ds) @ newline_indent i 0 @ 125 # rest)"
      unfolding skip_ws_newline_indent by (subst q) (simp add: skip_ws_Cons is_ws_def)
    then show ?thesis
      unfolding kv py_join_items_Cons
      using False ih by (simp add: parse_members_item skip_ws_Cons is_ws_def)
  qed
qed

lemma dict_setitem_fresh: "k \<notin> fst ` set d \<Longrightarrow> dict_setitem d k v = d @ [(k, v)]"
  by (induction d) auto

lemma foldl_dict_setitem:
  "distinct (map fst (acc @ ds)) \<Longrightarrow>
     foldl (\<lambda>d kv. dict_setitem d (fst kv) (snd kv)) acc ds = acc @ ds"
proof (induction ds arbitrary: acc)
  case Nil
  show ?case by simp
next
  case (Cons kv ds)
  have f: "dict_setitem acc (fst kv) (snd kv) = acc @ [kv]"
    using Cons.prems dict_setitem_fresh [of "fst kv" acc "snd kv"] by auto
  have "distinct (map fst ((acc @ [kv]) @ ds))" using Cons.prems by simp
  from Cons.IH [OF this] f show ?case by simp
qed

lemma dict_distinct: "distinct (map fst ds) \<Longrightarrow> dict ds = ds"
  using foldl_dict_setitem [of "[]" ds] by (simp add: dict_def)

lemma json_roundtrip:
  assumes "distinct (map fst d)"
  shows "json_loads (json_dumps i d) = Some d"
proof (cases "d = []")
  case True
  then show ?thesis
    by (simp add: json_loads_def json_dumps_def str_def skip_ws_Cons is_ws_def JSONObject_def skip_ws_Nil dict_def)
next
  case False
  then obtain k v ds where d: "d = (k, v) # ds" by (cases d) auto
  let ?body = "py_join (44 # newline_indent i 1) (map encode_item d) @ newline_indent i 0 @ 125 # []"
  have dump: "json_dumps i d = 123 # newline_indent i 1 @ ?body"
    using False by (simp add: json_dumps_def str_def)
  have q: "?body = QUOTE # tl ?body"
    unfolding d py_join_items_Cons by simp
  have pm: "parse_members (tl ?body) = Some (d, [])"
    by (rule parse_members_items [OF False])
  have obj: "JSONObject (newline_indent i 1 @ ?body) = Some (d, [])"
    unfolding JSONObject_def skip_ws_newline_indent
    by (subst q) (simp add: skip_ws_Cons is_ws_def pm dict_distinct [OF assms] del: One_nat_def)
  show ?thesis
    unfolding dump by (simp add: json_loads_def skip_ws_Cons is_ws_def obj skip_ws_Nil del: One_nat_def)
qed

section \<open>The payload through serialization\<close>

lemma build_payload_cases:
  "build_payload parse fs p = Inr payload \<Longrightarrow>
     \<exists>deed. read_docx_text parse fs p = Inr deed \<and>
       payload = [(str ''system_prompt'', SYSTEM_PROMPT), (str ''deed_text'', deed)]"
  by (auto simp: build_payload_def split: sum.splits)

lemma payload_keys_distinct:
  "distinct (map fst [(str ''system_prompt'', a), (str ''deed_text'', b)])"
  using keys_distinct by simp

text \<open>
  Claim C4. Whatever the document, the \<open>system_prompt\<close> field of a payload that is built
  is the constant \<open>SYSTEM_PROMPT\<close>, character for character, and so is the value found
  under \<open>system_prompt\<close> when the serialized payload is parsed back.
\<close>

theorem system_prompt_unaltered:
  assumes "build_payload parse fs p = Inr payload"
  shows "map_of payload (str ''system_prompt'') = Some SYSTEM_PROMPT \<and>
         (\<exists>parsed. json_loads (json_dumps 2 payload) = Some parsed \<and>
            map_of parsed (str ''system_prompt'') = Some SYSTEM_PROMPT)"
proof -
  from build_payload_cases [OF assms] obtain deed
    where pl: "payload = [(str ''system_prompt'', SYSTEM_PROMPT), (str ''deed_text'', deed)]"
    by blast
  have "json_loads (json_dumps 2 payload) = Some payload"
    unfolding pl by (rule json_roundtrip [OF payload_keys_distinct])
  moreover have "map_of payload (str ''system_prompt'') = Some SYSTEM_PROMPT"
    unfolding pl by simp
  ultimately show ?thesis by simp
qed

text \<open>
  Claim C6. Parsing the JSON text of a payload gives back a mapping equal to the payload:
  \<open>system_prompt\<close> and \<open>deed_text\<close> are both there, with the constant prompt and the
  extracted text as their values.
\<close>

theorem payload_json_roundtrip:
  assumes "build_payload parse fs p = Inr payload"
  shows "\<exists>parsed deed. json_loads (json_dumps 2 payload) = Some parsed \<and> parsed = payload \<and>
           read_docx_text parse fs p = Inr deed \<and>
           map_of parsed (str ''system_prompt'') = Some SYSTEM_PROMPT \<and>
           map_of parsed (str ''deed_text'') = Some deed"
proof -
  from build_payload_cases [OF assms] obtain deed
    where rd: "read_docx_text parse fs p = Inr deed"
      and pl: "payload = [(str ''system_prompt'', SYSTEM_PROMPT), (str ''deed_text'', deed)]"
    by blast
  have rt: "json_loads (json_dumps 2 payload) = Some payload"
    unfolding pl by (rule json_roundtrip [OF payload_keys_distinct])
  have "map_of payload (str ''system_prompt'') = Some SYSTEM_PROMPT"
    unfolding pl by simp
  moreover have "map_of payload (str ''deed_text'') = Some deed"
    unfolding pl using keys_distinct by simp
  ultimately show ?thesis using rt rd by simp
qed

text \<open>A payload with a quote, a newline and a character beyond ASCII in its text.\<close>

lemma example_payload:
  "build_payload (\<lambda>_. Some (document_of [str ''x'', [233, 10, 34]])) [str ''d'' \<mapsto> []] (str ''d'')
     = Inr [(str ''system_prompt'', SYSTEM_PROMPT), (str ''deed_text'', str ''x'' @ [NL, 233, 10, 34])]"
proof -
  let ?d = "document_of [str ''x'', [233, 10, 34]]"
  have doc: "Document (\<lambda>_. Some ?d) [str ''d'' \<mapsto> []] (str ''d'') = Inr ?d"
    by (rule Document_const)
  have "extract_text ?d = str ''x'' @ [NL, 233, 10, 34]"
    by (simp add: extract_text_document_of blank_def str_def py_isspace_def)
  with read_docx_text_Inr [OF doc]
  have "read_docx_text (\<lambda>_. Some ?d) [str ''d'' \<mapsto> []] (str ''d'') = Inr (str ''x'' @ [NL, 233, 10, 34])"
    by simp
  from build_payload_Inr [OF this] show ?thesis .
qed

theorem system_prompt_unaltered_witness:
  "map_of [(str ''system_prompt'', SYSTEM_PROMPT), (str ''deed_text'', str ''x'' @ [NL, 233, 10, 34])]
       (str ''system_prompt'') = Some SYSTEM_PROMPT \<and>
   (\<exists>parsed. json_loads (json_dumps 2
        [(str ''system_prompt'', SYSTEM_PROMPT), (str ''deed_text'', str ''x'' @ [NL, 233, 10, 34])]) = Some parsed \<and>
      map_of parsed (str ''system_prompt'') = Some SYSTEM_PROMPT)"
  by (rule system_prompt_unaltered [OF example_payload])

theorem payload_json_roundtrip_witness:
  "\<exists>parsed. json_loads (json_dumps 2
        [(str ''system_prompt'', SYSTEM_PROMPT), (str ''deed_text'', str ''x'' @ [NL, 233, 10, 34])]) = Some parsed \<and>
      parsed = [(str ''system_prompt'', SYSTEM_PROMPT), (str ''deed_text'', str ''x'' @ [NL, 233, 10, 34])] \<and>
      map_of parsed (str ''system_prompt'') = Some SYSTEM_PROMPT \<and>
      map_of parsed (str ''deed_text'') = Some (str ''x'' @ [NL, 233, 10, 34])"
proof -
  from payload_json_roundtrip [OF example_payload] obtain parsed deed where
    a: "json_loads (json_dumps 2
        [(str ''system_prompt'', SYSTEM_PROMPT), (str ''deed_text'', str ''x'' @ [NL, 233, 10, 34])]) = Some parsed"
    and b: "parsed = [(str ''system_prompt'', SYSTEM_PROMPT), (str ''deed_text'', str ''x'' @ [NL, 233, 10, 34])]"
    and c: "map_of parsed (str ''system_prompt'') = Some SYSTEM_PROMPT"
    by blast
  have "map_of parsed (str ''deed_text'') = Some (str ''x'' @ [NL, 233, 10, 34])"
    unfolding b using keys_distinct by simp
  with a b c show ?thesis by blast
qed

section \<open>The shape of the serialized payload\<close>

lemma lines_of_append: "NL \<notin> set a \<Longrightarrow> lines_of (a @ NL # b) = a # lines_of b"
  by (induction a) auto

lemma lines_of_single: "NL \<notin> set a \<Longrightarrow> lines_of a = [a]"
  by (induction a) auto

lemma hex_digit_bounds: "d < 16 \<Longrightarrow> 48 \<le> hex_digit d \<and> hex_digit d < 128"
  by (simp add: hex_digit_def)

lemma escape_char_ascii:
  "x \<in> set (escape_char c) \<Longrightarrow> x = c \<and> 32 \<le> c \<or> 34 \<le> x \<and> x < 128"
proof -
  assume x: "x \<in> set (escape_char c)"
  have a: "c < 32 \<Longrightarrow> 48 \<le> hex_digit (c div 16) \<and> hex_digit (c div 16) < 128"
    by (rule hex_digit_bounds) simp
  have b: "48 \<le> hex_digit (c mod 16) \<and> hex_digit (c mod 16) < 128"
    by (rule hex_digit_bounds) simp
  from x a b show ?thesis
    by (auto simp: escape_char_def split: if_splits)
qed

lemma NL_notin_escaped: "NL \<notin> set (escaped s)"
proof
  assume "NL \<in> set (escaped s)"
  then obtain c where "c \<in> set s" "NL \<in> set (escape_char c)"
    by (auto simp: escaped_def)
  with escape_char_ascii [of NL c] show False by auto
qed

lemma NL_notin_encode: "NL \<notin> set (encode_basestring s)"
  using NL_notin_escaped [of s] by (simp add: encode_basestring_def)

lemma NL_notin_item: "NL \<notin> set (encode_item kv)"
  using NL_notin_encode [of "fst kv"] NL_notin_encode [of "snd kv"]
  by (simp add: encode_item_def str_def)

lemma filter_escape_char:
  "filter (\<lambda>x. 128 \<le> x) (escape_char c) = (if 128 \<le> c then [c] else [])"
proof (cases "128 \<le> c")
  case True
  then show ?thesis by (simp add: escape_char_def)
next
  case False
  have "\<forall>x\<in>set (escape_char c). \<not> 128 \<le> x"
  proof
    fix x
    assume "x \<in> set (escape_char c)"
    from escape_char_ascii [OF this] False show "\<not> 128 \<le> x" by linarith
  qed
  then have "filter (\<lambda>x. 128 \<le> x) (escape_char c) = []"
    by (simp add: filter_empty_conv)
  with False show ?thesis by simp
qed

lemma filter_escaped: "filter (\<lambda>x. 128 \<le> x) (escaped s) = filter (\<lambda>x. 128 \<le> x) s"
  by (induction s) (simp_all add: escaped_def filter_escape_char)

lemma filter_encode: "filter (\<lambda>x. 128 \<le> x) (encode_basestring s) = filter (\<lambda>x. 128 \<le> x) s"
  by (simp add: encode_basestring_def filter_escaped)

lemma json_dumps_two:
  "json_dumps 2 [(k1, v1), (k2, v2)] =
     str ''{'' @ NL # (str ''  '' @ encode_item (k1, v1) @ str '','') @ NL #
       (str ''  '' @ encode_item (k2, v2)) @ NL # str ''}''"
  by (simp add: json_dumps_def newline_indent_def str_def numeral_2_eq_2)

text \<open>
  Claim C5. The JSON text of a payload has four lines: the opening brace, the member
  \<open>system_prompt\<close> and then the member \<open>deed_text\<close>, each after two spaces, and the
  closing brace. The characters beyond ASCII of the text are those of the two values, in
  their order: the encoder copies such a character and never replaces it by an escape.
\<close>

theorem json_dumps_format:
  assumes "build_payload parse fs p = Inr payload"
  shows "\<exists>deed. read_docx_text parse fs p = Inr deed \<and>
           lines_of (json_dumps 2 payload) =
             [str ''{'',
              str ''  '' @ encode_basestring (str ''system_prompt'') @ str '': '' @
                encode_basestring SYSTEM_PROMPT @ str '','',
              str ''  '' @ encode_basestring (str ''deed_text'') @ str '': '' @
                encode_basestring deed,
              str ''}''] \<and>
           filter (\<lambda>c. 128 \<le> c) (json_dumps 2 payload) = filter (\<lambda>c. 128 \<le> c) (SYSTEM_PROMPT @ deed) \<and>
           (\<forall>c. 128 \<le> c \<longrightarrow> escape_char c = [c])"
proof -
  from build_payload_cases [OF assms] obtain deed
    where rd: "read_docx_text parse fs p = Inr deed"
      and pl: "payload = [(str ''system_prompt'', SYSTEM_PROMPT), (str ''deed_text'', deed)]"
    by blast
  let ?l1 = "str ''  '' @ encode_item (str ''system_prompt'', SYSTEM_PROMPT) @ str '',''"
  let ?l2 = "str ''  '' @ encode_item (str ''deed_text'', deed)"
  have n0: "NL \<notin> set (str ''{'')" by (simp add: str_def)
  have n1: "NL \<notin> set ?l1" using NL_notin_item [of "(str ''system_prompt'', SYSTEM_PROMPT)"]
    by (simp add: str_def)
  have n2: "NL \<notin> set ?l2" using NL_notin_item [of "(str ''deed_text'', deed)"]
    by (simp add: str_def)
  have n3: "NL \<notin> set (str ''}'')" by (simp add: str_def)
  have "lines_of (json_dumps 2 payload) = [str ''{'', ?l1, ?l2, str ''}'']"
    unfolding pl json_dumps_two
    by (simp only: lines_of_append [OF n0] lines_of_append [OF n1] lines_of_append [OF n2]
          lines_of_single [OF n3])
  then have a: "lines_of (json_dumps 2 payload) =
             [str ''{'',
              str ''  '' @ encode_basestring (str ''system_prompt'') @ str '': '' @
                encode_basestring SYSTEM_PROMPT @ str '','',
              str ''  '' @ encode_basestring (str ''deed_text'') @ str '': '' @
                encode_basestring deed,
              str ''}'']"
    by (simp add: encode_item_def)
  have b: "filter (\<lambda>c. 128 \<le> c) (json_dumps 2 payload) = filter (\<lambda>c. 128 \<le> c) (SYSTEM_PROMPT @ deed)"
    unfolding pl json_dumps_two
    by (simp add: encode_item_def filter_encode) (simp add: str_def)
  have c: "\<forall>c. 128 \<le> c \<longrightarrow> escape_char c = [c]"
    by (simp add: escape_char_def)
  from rd a b c show ?thesis by blast
qed

lemma example_text:
  "read_docx_text (\<lambda>_. Some (document_of [str ''x'', [233, 10, 34]])) [str ''d'' \<mapsto> []] (str ''d'')
     = Inr (str ''x'' @ [NL, 233, 10, 34])"
proof -
  let ?d = "document_of [str ''x'', [233, 10, 34]]"
  have doc: "Document (\<lambda>_. Some ?d) [str ''d'' \<mapsto> []] (str ''d'') = Inr ?d"
    by (rule Document_const)
  have "extract_text ?d = str ''x'' @ [NL, 233, 10, 34]"
    by (simp add: extract_text_document_of blank_def str_def py_isspace_def)
  with read_docx_text_Inr [OF doc] show ?thesis by simp
qed

theorem json_dumps_format_witness:
  "lines_of (json_dumps 2
      [(str ''system_prompt'', SYSTEM_PROMPT), (str ''deed_text'', str ''x'' @ [NL, 233, 10, 34])]) =
     [str ''{'',
      str ''  '' @ encode_basestring (str ''system_prompt'') @ str '': '' @
        encode_basestring SYSTEM_PROMPT @ str '','',
      str ''  '' @ [QUOTE] @ str ''deed_text'' @ [QUOTE] @ str '': '' @
        [QUOTE] @ str ''x'' @ [BACKSLASH, 110, 233, BACKSLASH, 110, BACKSLASH, QUOTE, QUOTE],
      str ''}'']"
proof -
  from json_dumps_format [OF example_payload] example_text
  have "lines_of (json_dumps 2
      [(str ''system_prompt'', SYSTEM_PROMPT), (str ''deed_text'', str ''x'' @ [NL, 233, 10, 34])]) =
     [str ''{'',
      str ''  '' @ encode_basestring (str ''system_prompt'') @ str '': '' @
        encode_basestring SYSTEM_PROMPT @ str '','',
      str ''  '' @ encode_basestring (str ''deed_text'') @ str '': '' @
        encode_basestring (str ''x'' @ [NL, 233, 10, 34]),
      str ''}'']"
    by auto
  moreover have "str ''  '' @ encode_basestring (str ''deed_text'') @ str '': '' @
        encode_basestring (str ''x'' @ [NL, 233, 10, 34]) = str ''  '' @ [QUOTE] @ str ''deed_text'' @ [QUOTE] @ str '': '' @
        [QUOTE] @ str ''x'' @ [BACKSLASH, 110, 233, BACKSLASH, 110, BACKSLASH, QUOTE, QUOTE]"
    by (simp add: encode_basestring_def escaped_def escape_char_def str_def)
  ultimately show ?thesis by simp
qed

section \<open>The driver\<close>

lemma main_document_error:
  "Document (parse_document e) (files w) (docx_path args) = Inl err \<Longrightarrow>
     main e args w = (1, w\<lparr>stderr := stderr w @ [err]\<rparr>)"
  by (simp add: main_def build_payload_def read_docx_text_def)

text \<open>
  Claim C7. When the document path names no file, the process ends with a status other
  than 0 and the file system is as it was: the output file, if one was asked for, is
  neither created nor overwritten, and nothing is printed on standard output. The payload
  is built before anything is written.
\<close>

theorem main_missing_document:
  assumes "files w (docx_path args) = None"
  shows "fst (main e args w) \<noteq> 0 \<and>
         files (snd (main e args w)) = files w \<and>
         stdout (snd (main e args w)) = stdout w \<and>
         stderr (snd (main e args w)) = stderr w @ [InputNotFound]"
proof -
  have "Document (parse_document e) (files w) (docx_path args) = Inl InputNotFound"
    using assms by (simp add: Document_def)
  from main_document_error [OF this] show ?thesis by simp
qed

theorem main_missing_document_witness:
  "fst (main \<lparr>parse_document = (\<lambda>_. Some (document_of [str ''x''])), linesep = [NL], write_result = Completed\<rparr>
          \<lparr>docx_path = str ''missing.docx'', output_path = Some (str ''out.json'')\<rparr>
          \<lparr>files = [str ''out.json'' \<mapsto> [1, 2, 3]], stdout = [], stderr = []\<rparr>) \<noteq> 0 \<and>
   files (snd (main \<lparr>parse_document = (\<lambda>_. Some (document_of [str ''x''])), linesep = [NL], write_result = Completed\<rparr>
          \<lparr>docx_path = str ''missing.docx'', output_path = Some (str ''out.json'')\<rparr>
          \<lparr>files = [str ''out.json'' \<mapsto> [1, 2, 3]], stdout = [], stderr = []\<rparr>)) (str ''out.json'') = Some [1, 2, 3]"
proof -
  let ?e = "\<lparr>parse_document = (\<lambda>_. Some (document_of [str ''x''])), linesep = [NL], write_result = Completed\<rparr>"
  let ?a = "\<lparr>docx_path = str ''missing.docx'', output_path = Some (str ''out.json'')\<rparr>"
  let ?w = "\<lparr>files = [str ''out.json'' \<mapsto> [1, 2, 3]], stdout = [], stderr = []\<rparr>"
  have m: "files ?w (docx_path ?a) = None"
    by (simp add: str_def)
  from main_missing_document [OF m, of ?e] show ?thesis by simp
qed

section \<open>Writing to the destination\<close>

lemma write_text_cases:
  "write_text e p data fs = (None, fs') \<Longrightarrow>
     \<exists>bs. utf8_encode (translate_newlines (linesep e) data) = Some bs \<and> fs' = fs(p \<mapsto> bs)"
  by (auto simp: write_text_def split: write_outcome.splits option.splits)

lemma main_output_cases:
  assumes "output_path args = Some dest"
  shows "(fst (main e args w) = 0 \<and>
          (\<exists>payload bs.
             build_payload (parse_document e) (files w) (docx_path args) = Inr payload \<and>
             utf8_encode (translate_newlines (linesep e) (json_dumps 2 payload)) = Some bs \<and>
             snd (main e args w) = w\<lparr>files := (files w)(dest \<mapsto> bs)\<rparr>))
       \<or> (fst (main e args w) = 1 \<and>
          (\<exists>err. stderr (snd (main e args w)) = stderr w @ [err]))"
proof (cases "build_payload (parse_document e) (files w) (docx_path args)")
  case (Inl err)
  then show ?thesis by (simp add: main_def)
next
  case (Inr payload)
  obtain r fs' where wt: "write_text e dest (json_dumps 2 payload) (files w) = (r, fs')"
    by (cases "write_text e dest (json_dumps 2 payload) (files w)")
  show ?thesis
  proof (cases r)
    case None
    with wt write_text_cases [of e dest "json_dumps 2 payload" "files w" fs']
    obtain bs where "utf8_encode (translate_newlines (linesep e) (json_dumps 2 payload)) = Some bs"
      and "fs' = (files w)(dest \<mapsto> bs)" by auto
    with Inr assms wt None show ?thesis by (simp add: main_def)
  next
    case (Some err)
    with Inr assms wt show ?thesis by (simp add: main_def)
  qed
qed

text \<open>
  Claim C8. When an output path is given, every run ends in one of two ways. Either the
  status is 0, and then the payload was built and the destination holds the whole
  serialized text in UTF-8 and nothing else; or the status is 1 and an error was reported
  on standard error. No run reports success over a destination with partial content,
  whatever the operating system does with the write.
\<close>

theorem main_write_complete_or_error:
  assumes "output_path args = Some dest"
  shows "(fst (main e args w) = 0 \<and>
          (\<exists>payload bs.
             build_payload (parse_document e) (files w) (docx_path args) = Inr payload \<and>
             utf8_encode (translate_newlines (linesep e) (json_dumps 2 payload)) = Some bs \<and>
             files (snd (main e args w)) = (files w)(dest \<mapsto> bs)))
       \<or> (fst (main e args w) = 1 \<and>
          (\<exists>err. stderr (snd (main e args w)) = stderr w @ [err]))"
  using main_output_cases [OF assms, of e w] by auto

lemma utf8_char_Some: "encodable c \<Longrightarrow> \<exists>bs. utf8_char c = Some bs"
  by (auto simp: encodable_def utf8_char_def)

lemma utf8_encode_Some: "list_all encodable s \<Longrightarrow> \<exists>bs. utf8_encode s = Some bs"
proof (induction s)
  case Nil
  show ?case by simp
next
  case (Cons c s)
  then obtain b bs where "utf8_char c = Some b" "utf8_encode s = Some bs"
    using utf8_char_Some [of c] by auto
  then show ?case by simp
qed

lemma encodable_escape_char:
  assumes "encodable c"
  shows "list_all encodable (escape_char c)"
  unfolding list_all_iff
proof
  fix x
  assume "x \<in> set (escape_char c)"
  from escape_char_ascii [OF this] assms show "encodable x"
    by (auto simp: encodable_def)
qed

lemma encodable_escaped: "list_all encodable s \<Longrightarrow> list_all encodable (escaped s)"
  by (induction s) (simp_all add: escaped_def encodable_escape_char)

lemma encodable_encode: "list_all encodable s \<Longrightarrow> list_all encodable (encode_basestring s)"
  by (simp add: encode_basestring_def encodable_escaped encodable_def)

lemma encodable_str: "list_all encodable (str s)"
proof -
  have "(of_char c :: nat) < 256" for c
  proof -
    have "(of_char c :: nat) mod 256 < 256" by simp
    then show ?thesis by (simp only: of_char_mod_256)
  qed
  then have "(of_char c :: nat) < 55296" for c
    using less_trans [of "of_char c :: nat" 256 55296] by simp
  then have "\<forall>c\<in>set s. (of_char c :: nat) < 55296"
    by simp
  then show ?thesis
    by (auto simp: str_def list_all_iff encodable_def)
qed

lemma encodable_json_dumps_two:
  assumes "list_all encodable v1" and "list_all encodable v2"
  shows "list_all encodable (json_dumps 2 [(str k1, v1), (str k2, v2)])"
  unfolding json_dumps_two
  using assms
  by (simp add: encode_item_def encodable_encode encodable_str) (simp add: encodable_def)

lemma translate_newlines_posix: "translate_newlines [NL] s = s"
  by (induction s) (simp_all add: translate_newlines_def)

lemma encodable_lines_1: "list_all encodable (concat (map (\<lambda>l. l @ [NL]) SYSTEM_PROMPT_lines_1))"
  by (simp add: SYSTEM_PROMPT_lines_1_def str_def encodable_def)

lemma encodable_lines_2: "list_all encodable (concat (map (\<lambda>l. l @ [NL]) SYSTEM_PROMPT_lines_2))"
  by (simp add: SYSTEM_PROMPT_lines_2_def str_def encodable_def)

lemma encodable_lines_3: "list_all encodable (concat (map (\<lambda>l. l @ [NL]) SYSTEM_PROMPT_lines_3))"
  by (simp add: SYSTEM_PROMPT_lines_3_def str_def encodable_def)

lemma encodable_lines_4: "list_all encodable (concat (map (\<lambda>l. l @ [NL]) SYSTEM_PROMPT_lines_4))"
  by (simp add: SYSTEM_PROMPT_lines_4_def str_def encodable_def)

lemma encodable_SYSTEM_PROMPT: "list_all encodable SYSTEM_PROMPT"
  unfolding SYSTEM_PROMPT_def map_append concat_append list_all_append
  using encodable_lines_1 encodable_lines_2 encodable_lines_3 encodable_lines_4 by simp

theorem main_write_complete_or_error_witness:
  "fst (main \<lparr>parse_document = (\<lambda>_. Some (document_of [str ''x'', [233, 10, 34]])), linesep = [NL],
               write_result = Completed\<rparr>
             \<lparr>docx_path = str ''d'', output_path = Some (str ''out.json'')\<rparr>
             \<lparr>files = [str ''d'' \<mapsto> []], stdout = [], stderr = []\<rparr>) = 0 \<and>
   (\<exists>bs. utf8_encode (json_dumps 2
             [(str ''system_prompt'', SYSTEM_PROMPT), (str ''deed_text'', str ''x'' @ [NL, 233, 10, 34])]) = Some bs \<and>
         files (snd (main \<lparr>parse_document = (\<lambda>_. Some (document_of [str ''x'', [233, 10, 34]])), linesep = [NL],
                            write_result = Completed\<rparr>
                          \<lparr>docx_path = str ''d'', output_path = Some (str ''out.json'')\<rparr>
                          \<lparr>files = [str ''d'' \<mapsto> []], stdout = [], stderr = []\<rparr>)) (str ''out.json'') = Some bs)"
proof -
  let ?e = "\<lparr>parse_document = (\<lambda>_. Some (document_of [str ''x'', [233, 10, 34]])), linesep = [NL],
               write_result = Completed\<rparr>"
  let ?a = "\<lparr>docx_path = str ''d'', output_path = Some (str ''out.json'')\<rparr>"
  let ?w = "\<lparr>files = [str ''d'' \<mapsto> []], stdout = [], stderr = []\<rparr>"
  let ?pl = "[(str ''system_prompt'', SYSTEM_PROMPT), (str ''deed_text'', str ''x'' @ [NL, 233, 10, 34])]"
  have bp: "build_payload (parse_document ?e) (files ?w) (docx_path ?a) = Inr ?pl"
    using example_payload by simp
  have "list_all encodable (str ''x'' @ [NL, 233, 10, 34])"
    by (simp add: encodable_str) (simp add: encodable_def)
  from utf8_encode_Some [OF encodable_json_dumps_two [OF encodable_SYSTEM_PROMPT this]]
  obtain bs0 where enc: "utf8_encode (json_dumps 2 ?pl) = Some bs0" by blast
  have ok: "fst (main ?e ?a ?w) = 0"
    by (simp add: main_def example_payload write_text_def translate_newlines_posix enc)
  have out: "output_path ?a = Some (str ''out.json'')" by simp
  from main_write_complete_or_error [OF out, of ?e ?w] ok
  obtain payload bs where
    p: "build_payload (parse_document ?e) (files ?w) (docx_path ?a) = Inr payload" and
    u: "utf8_encode (translate_newlines (linesep ?e) (json_dumps 2 payload)) = Some bs" and
    f: "files (snd (main ?e ?a ?w)) = (files ?w)(str ''out.json'' \<mapsto> bs)"
    by auto
  from p bp have "payload = ?pl" by simp
  with u have "utf8_encode (json_dumps 2 ?pl) = Some bs"
    by (simp add: translate_newlines_posix)
  moreover from f have "files (snd (main ?e ?a ?w)) (str ''out.json'') = Some bs" by simp
  ultimately show ?thesis using ok by blast
qed

end
